theory Spec2Isabelle
  imports Main
begin

section \<open>The data-preprocessing loop of the Cohere tutorial\<close>

text \<open>
  The notebook loads the BC5CDR dataset with \<^verbatim>\<open>json.load\<close> and walks over it:
  \<^verbatim>\<open>
  the_list = []
  for item in data:
    chems = []
    dis = []

    if item['dataset_type'] == "test": continue;

    for ent in item['passages'][1]['entities']:
      if ent['type'] == "Chemical":
        if ent['text'][0] not in chems:
          chems.append( ent['text'][0] )

      if ent['type'] == "Disease":
        if ent['text'][0] not in dis:
          dis.append( ent['text'][0] )
  \<close>
  and a later cell writes the accumulated list to a file:
  \<^verbatim>\<open>
  with open("disease_instruct_all.jsonl", "w") as outfile:
    for item in the_list:
      outfile.write(json.dumps(item) + "\n")
  \<close>
\<close>

subsection \<open>Data model\<close>

text \<open>
  The shape of one dataset row is the one the notebook prints for \<^verbatim>\<open>data[0]\<close>:
  a dictionary with the keys \<^verbatim>\<open>passages\<close> and \<^verbatim>\<open>dataset_type\<close>; a passage has
  \<^verbatim>\<open>document_id\<close>, \<^verbatim>\<open>type\<close>, \<^verbatim>\<open>text\<close> and \<^verbatim>\<open>entities\<close>; an entity has
  \<^verbatim>\<open>id\<close>, \<^verbatim>\<open>text\<close> (a list of strings) and \<^verbatim>\<open>type\<close>. The dictionaries are
  records, so every key is present; the two subscripts of the loop, \<^verbatim>\<open>passages[1]\<close> and
  \<^verbatim>\<open>text[0]\<close>, can still be out of range, which Python reports as an \<^verbatim>\<open>IndexError\<close>.
\<close>

datatype error = IndexError

record entity =
  ent_id :: string
  ent_text :: "string list"
  ent_type :: string

record passage =
  document_id :: string
  passage_type :: string
  passage_text :: string
  entities :: "entity list"

record item =
  passages :: "passage list"
  dataset_type :: string

text \<open>
  The three variables the loop assigns. Nothing in the source fixes the type of the elements
  of \<^verbatim>\<open>the_list\<close>, so it is a parameter. Before the first iteration \<^verbatim>\<open>chems\<close> and
  \<^verbatim>\<open>dis\<close> are unbound in the source; every iteration rebinds both before reading them.
\<close>

record 'e loop_state =
  the_list :: "'e list"
  chems :: "string list"
  dis :: "string list"

subsection \<open>The loop\<close>

text \<open>
  The body of the inner loop for one entity: two independent \<^verbatim>\<open>if\<close> statements, the
  second one running on the state the first one leaves. \<^verbatim>\<open>ent['text'][0]\<close> is evaluated
  only under the type test, and raises on an empty list.
\<close>

definition ent_step :: "'e loop_state \<Rightarrow> entity \<Rightarrow> error + 'e loop_state" where
  "ent_step st ent =
     (case (if ent_type ent = ''Chemical'' then
              (case ent_text ent of
                 [] \<Rightarrow> Inl IndexError
               | t # _ \<Rightarrow> Inr (if t \<notin> set (chems st) then st\<lparr>chems := chems st @ [t]\<rparr> else st))
            else Inr st) of
        Inl e \<Rightarrow> Inl e
      | Inr st1 \<Rightarrow>
          (if ent_type ent = ''Disease'' then
             (case ent_text ent of
                [] \<Rightarrow> Inl IndexError
              | t # _ \<Rightarrow> Inr (if t \<notin> set (dis st1) then st1\<lparr>dis := dis st1 @ [t]\<rparr> else st1))
           else Inr st1))"

fun ent_loop :: "'e loop_state \<Rightarrow> entity list \<Rightarrow> error + 'e loop_state" where
  "ent_loop st [] = Inr st"
| "ent_loop st (ent # ents) =
     (case ent_step st ent of Inl e \<Rightarrow> Inl e | Inr st1 \<Rightarrow> ent_loop st1 ents)"

text \<open>
  The body of the outer loop for one item. Both lists are emptied first; \<^verbatim>\<open>continue\<close>
  ends the iteration for a test item; otherwise the entities of the second passage are
  walked. No statement of the body appends to \<^verbatim>\<open>the_list\<close>.
\<close>

definition loop_body :: "'e loop_state \<Rightarrow> item \<Rightarrow> error + 'e loop_state" where
  "loop_body st item =
     (let st1 = st\<lparr>chems := [], dis := []\<rparr> in
      if dataset_type item = ''test'' then Inr st1
      else if length (passages item) \<le> 1 then Inl IndexError
      else ent_loop st1 (entities (passages item ! 1)))"

fun preprocess_loop :: "'e loop_state \<Rightarrow> item list \<Rightarrow> error + 'e loop_state" where
  "preprocess_loop st [] = Inr st"
| "preprocess_loop st (item # data) =
     (case loop_body st item of Inl e \<Rightarrow> Inl e | Inr st1 \<Rightarrow> preprocess_loop st1 data)"

definition preprocess :: "item list \<Rightarrow> error + 'e loop_state" where
  "preprocess data = preprocess_loop \<lparr>the_list = [], chems = [], dis = []\<rparr> data"

text \<open>
  The writer. The file is opened with mode \<^verbatim>\<open>"w"\<close>, so its content afterwards is exactly
  what the loop wrote. \<^verbatim>\<open>json.dumps\<close> belongs to the Python library and is a parameter.
\<close>

definition write_jsonl :: "('e \<Rightarrow> string) \<Rightarrow> 'e list \<Rightarrow> string" where
  "write_jsonl dumps xs = concat (map (\<lambda>item. dumps item @ [CHR 0x0A]) xs)"

subsection \<open>What the per-item lists are compared with\<close>

text \<open>
  The names of one type among a list of entities, in the order of the entities: the first
  element of \<^verbatim>\<open>text\<close> for every entity of that type (nothing for an empty \<^verbatim>\<open>text\<close>,
  where the loop raises).
\<close>

definition entity_names :: "string \<Rightarrow> entity list \<Rightarrow> string list" where
  "entity_names T ents =
     concat (map (\<lambda>ent. take 1 (ent_text ent)) (filter (\<lambda>ent. ent_type ent = T) ents))"

text \<open>The entities of the abstract, which is the second passage of an item.\<close>

definition abstract_entities :: "item \<Rightarrow> entity list" where
  "abstract_entities item = (case passages item of _ # p # _ \<Rightarrow> entities p | _ \<Rightarrow> [])"

text \<open>
  Every element once, at the place of its first occurrence: the head stays, and is removed
  from what the rest contributes.
\<close>

fun first_occurrences :: "'a list \<Rightarrow> 'a list" where
  "first_occurrences [] = []"
| "first_occurrences (x # xs) = x # filter (\<lambda>y. y \<noteq> x) (first_occurrences xs)"

text \<open>The position of the first occurrence of an element (the length, when there is none).\<close>

definition first_index :: "'a list \<Rightarrow> 'a \<Rightarrow> nat" where
  "first_index xs a = length (takeWhile (\<lambda>x. x \<noteq> a) xs)"

subsection \<open>Sample data\<close>

text \<open>
  The row the notebook prints for \<^verbatim>\<open>data[0]\<close>, with the abstract's text left out and its
  entities cut after the ninth, and the same row marked as a test row.
\<close>

definition sample_item :: item where
  "sample_item =
     \<lparr>passages =
        [\<lparr>document_id = ''227508'', passage_type = ''title'',
          passage_text = ''Naloxone reverses the antihypertensive effect of clonidine.'',
          entities =
            [\<lparr>ent_id = ''0'', ent_text = [''Naloxone''], ent_type = ''Chemical''\<rparr>,
             \<lparr>ent_id = ''1'', ent_text = [''clonidine''], ent_type = ''Chemical''\<rparr>]\<rparr>,
         \<lparr>document_id = ''227508'', passage_type = ''abstract'',
          passage_text = '''',
          entities =
            [\<lparr>ent_id = ''2'', ent_text = [''hypertensive''], ent_type = ''Disease''\<rparr>,
             \<lparr>ent_id = ''3'', ent_text = [''clonidine''], ent_type = ''Chemical''\<rparr>,
             \<lparr>ent_id = ''4'', ent_text = [''nalozone''], ent_type = ''Chemical''\<rparr>,
             \<lparr>ent_id = ''5'', ent_text = [''hypotensive''], ent_type = ''Disease''\<rparr>,
             \<lparr>ent_id = ''6'', ent_text = [''alpha-methyldopa''], ent_type = ''Chemical''\<rparr>,
             \<lparr>ent_id = ''7'', ent_text = [''naloxone''], ent_type = ''Chemical''\<rparr>,
             \<lparr>ent_id = ''8'', ent_text = [''Naloxone''], ent_type = ''Chemical''\<rparr>,
             \<lparr>ent_id = ''9'', ent_text = [''hypertensive''], ent_type = ''Disease''\<rparr>,
             \<lparr>ent_id = ''10'', ent_text = [''clonidine''], ent_type = ''Chemical''\<rparr>]\<rparr>],
      dataset_type = ''train''\<rparr>"


section \<open>Properties of the first-occurrence list\<close>

lemma set_first_occurrences: "set (first_occurrences xs) = set xs"
  by (induction xs) auto

lemma distinct_first_occurrences: "distinct (first_occurrences xs)"
  by (induction xs) auto

lemma filter_first_occurrences:
  "filter P (first_occurrences xs) = first_occurrences (filter P xs)"
proof (induction xs)
  case Nil
  show ?case by simp
next
  case (Cons x xs)
  show ?case
  proof (cases "P x")
    case True
    have "filter P (filter (\<lambda>y. y \<noteq> x) (first_occurrences xs))
        = filter (\<lambda>y. y \<noteq> x) (filter P (first_occurrences xs))"
      by (simp add: conj_commute)
    with True Cons show ?thesis by simp
  next
    case False
    have "filter P (filter (\<lambda>y. y \<noteq> x) (first_occurrences xs)) = filter P (first_occurrences xs)"
      using False by (auto intro: filter_cong)
    with False Cons show ?thesis by simp
  qed
qed

lemma first_index_Cons:
  "first_index (x # xs) a = (if a = x then 0 else Suc (first_index xs a))"
  by (auto simp: first_index_def)

lemma sorted_first_occurrences:
  "sorted_wrt (\<lambda>a b. first_index xs a < first_index xs b) (first_occurrences xs)"
proof (induction xs)
  case Nil
  show ?case by simp
next
  case (Cons x xs)
  have "sorted_wrt (\<lambda>a b. first_index xs a < first_index xs b)
          (filter (\<lambda>y. y \<noteq> x) (first_occurrences xs))"
    using Cons by (rule sorted_wrt_filter)
  then have "sorted_wrt (\<lambda>a b. first_index (x # xs) a < first_index (x # xs) b)
          (filter (\<lambda>y. y \<noteq> x) (first_occurrences xs))"
    by (rule sorted_wrt_mono_rel[rotated]) (auto simp: first_index_Cons)
  then show ?case by (auto simp: first_index_Cons)
qed

section \<open>The inner loop\<close>

lemma entity_names_Cons:
  "entity_names T (ent # ents) = entity_names T [ent] @ entity_names T ents"
  by (simp add: entity_names_def)

lemma entity_names_single_cases:
  "entity_names T [ent] = [] \<or> (\<exists>t. entity_names T [ent] = [t])"
  by (cases "ent_text ent") (auto simp: entity_names_def)

lemma ent_step_lists:
  assumes "ent_step st ent = Inr st'"
  shows "the_list st' = the_list st
       \<and> chems st' = chems st @ filter (\<lambda>t. t \<notin> set (chems st)) (entity_names ''Chemical'' [ent])
       \<and> dis st' = dis st @ filter (\<lambda>t. t \<notin> set (dis st)) (entity_names ''Disease'' [ent])"
  using assms
  by (auto simp: ent_step_def entity_names_def split: if_splits list.splits)

text \<open>Appending at most one new name, then the first occurrences of what follows.\<close>

lemma append_new_step:
  assumes "ys = [] \<or> (\<exists>t. ys = [t])"
  shows "(acc @ filter (\<lambda>t. t \<notin> set acc) ys)
          @ first_occurrences (filter (\<lambda>t. t \<notin> set (acc @ filter (\<lambda>t. t \<notin> set acc) ys)) zs)
       = acc @ first_occurrences (filter (\<lambda>t. t \<notin> set acc) (ys @ zs))"
  using assms
proof
  assume "ys = []"
  then show ?thesis by simp
next
  assume "\<exists>t. ys = [t]"
  then obtain t where ys: "ys = [t]" by blast
  show ?thesis
  proof (cases "t \<in> set acc")
    case True
    with ys show ?thesis by simp
  next
    case False
    have "filter (\<lambda>y. y \<noteq> t) (first_occurrences (filter (\<lambda>t. t \<notin> set acc) zs))
        = first_occurrences (filter (\<lambda>u. u \<noteq> t \<and> u \<notin> set acc) zs)"
      by (simp add: filter_first_occurrences conj_commute)
    with False ys show ?thesis by (simp add: conj_commute)
  qed
qed

lemma ent_loop_lists:
  assumes "ent_loop st ents = Inr st'"
  shows "the_list st' = the_list st
       \<and> chems st' = chems st
           @ first_occurrences (filter (\<lambda>t. t \<notin> set (chems st)) (entity_names ''Chemical'' ents))
       \<and> dis st' = dis st
           @ first_occurrences (filter (\<lambda>t. t \<notin> set (dis st)) (entity_names ''Disease'' ents))"
  using assms
proof (induction ents arbitrary: st)
  case Nil
  then show ?case by (simp add: entity_names_def)
next
  case (Cons ent ents)
  from Cons.prems obtain st1
    where s1: "ent_step st ent = Inr st1" and l1: "ent_loop st1 ents = Inr st'"
    by (auto split: sum.splits)
  note st = ent_step_lists[OF s1]
  note ih = Cons.IH[OF l1]
  have c: "chems st' = chems st
      @ first_occurrences (filter (\<lambda>t. t \<notin> set (chems st)) (entity_names ''Chemical'' (ent # ents)))"
    using ih st append_new_step[OF entity_names_single_cases,
        of "chems st" "''Chemical''" ent "entity_names ''Chemical'' ents"]
    by (simp only: entity_names_Cons[of _ ent ents])
  have d: "dis st' = dis st
      @ first_occurrences (filter (\<lambda>t. t \<notin> set (dis st)) (entity_names ''Disease'' (ent # ents)))"
    using ih st append_new_step[OF entity_names_single_cases,
        of "dis st" "''Disease''" ent "entity_names ''Disease'' ents"]
    by (simp only: entity_names_Cons[of _ ent ents])
  from c d ih st show ?case by simp
qed

text \<open>The inner loop raises exactly on a Chemical or Disease entity whose text list is empty.\<close>

lemma ent_step_completes:
  "(\<exists>st'. ent_step st ent = Inr st')
     \<longleftrightarrow> \<not> ((ent_type ent = ''Chemical'' \<or> ent_type ent = ''Disease'') \<and> ent_text ent = [])"
  by (auto simp: ent_step_def split: list.splits)

lemma ent_loop_completes:
  "(\<exists>st'. ent_loop st ents = Inr st')
     \<longleftrightarrow> (\<forall>ent \<in> set ents.
            \<not> ((ent_type ent = ''Chemical'' \<or> ent_type ent = ''Disease'') \<and> ent_text ent = []))"
proof (induction ents arbitrary: st)
  case Nil
  show ?case by simp
next
  case (Cons ent ents)
  show ?case
  proof (cases "ent_step st ent")
    case (Inl e)
    with ent_step_completes[of st ent] show ?thesis by auto
  next
    case (Inr st1)
    with ent_step_completes[of st ent] Cons.IH[of st1] show ?thesis by auto
  qed
qed

section \<open>One iteration of the outer loop\<close>

lemma abstract_entities_nth:
  "\<not> length (passages item) \<le> 1 \<Longrightarrow> entities (passages item ! 1) = abstract_entities item"
  by (cases "passages item"; cases "tl (passages item)") (auto simp: abstract_entities_def)

lemma loop_body_test:
  "dataset_type item = ''test'' \<Longrightarrow> loop_body st item = Inr (st\<lparr>chems := [], dis := []\<rparr>)"
  by (simp add: loop_body_def)

lemma loop_body_lists:
  assumes "loop_body st item = Inr st'"
  shows "the_list st' = the_list st
       \<and> chems st' = (if dataset_type item = ''test'' then []
                      else first_occurrences (entity_names ''Chemical'' (abstract_entities item)))
       \<and> dis st' = (if dataset_type item = ''test'' then []
                    else first_occurrences (entity_names ''Disease'' (abstract_entities item)))"
proof (cases "dataset_type item = ''test''")
  case True
  with assms show ?thesis by (auto simp: loop_body_def)
next
  case False
  with assms have len: "\<not> length (passages item) \<le> 1"
    and run1: "ent_loop (st\<lparr>chems := [], dis := []\<rparr>) (entities (passages item ! 1)) = Inr st'"
    by (auto simp: loop_body_def Let_def split: if_splits)
  from run1 have run: "ent_loop (st\<lparr>chems := [], dis := []\<rparr>) (abstract_entities item) = Inr st'"
    by (simp only: abstract_entities_nth[OF len])
  from ent_loop_lists[OF run] False show ?thesis by simp
qed

text \<open>
  An iteration completes exactly for a test item, and for an item with a second passage
  none of whose Chemical or Disease entities has an empty text list.
\<close>

lemma loop_body_completes:
  "(\<exists>st'. loop_body st item = Inr st')
     \<longleftrightarrow> dataset_type item = ''test''
         \<or> (1 < length (passages item)
            \<and> (\<forall>ent \<in> set (abstract_entities item).
                  \<not> ((ent_type ent = ''Chemical'' \<or> ent_type ent = ''Disease'') \<and> ent_text ent = [])))"
proof (cases "dataset_type item = ''test'' \<or> length (passages item) \<le> 1")
  case True
  then show ?thesis by (auto simp: loop_body_def)
next
  case False
  then have len: "\<not> length (passages item) \<le> 1" by simp
  from False have "loop_body st item = ent_loop (st\<lparr>chems := [], dis := []\<rparr>) (entities (passages item ! 1))"
    by (simp add: loop_body_def)
  then have "loop_body st item = ent_loop (st\<lparr>chems := [], dis := []\<rparr>) (abstract_entities item)"
    by (simp only: abstract_entities_nth[OF len])
  with False ent_loop_completes[of "st\<lparr>chems := [], dis := []\<rparr>" "abstract_entities item"]
  show ?thesis by auto
qed

text \<open>
  Claim C9. For every item and every state the loop reaches it in, an iteration that
  completes leaves each entity text at most once in \<^verbatim>\<open>chems\<close> and in \<^verbatim>\<open>dis\<close>. For
  an item that is not a test item the two lists are the Chemical and the Disease names of
  the abstract's entities, each name once, at the place of its first occurrence (a repeated
  mention is not appended again); for a test item both lists are empty. In both cases the
  lists are ordered by the position of the first occurrence among the abstract's entities.
\<close>

theorem per_item_lists_first_occurrences:
  assumes "loop_body st item = Inr st'"
  shows "distinct (chems st') \<and> distinct (dis st')
       \<and> chems st' = (if dataset_type item = ''test'' then []
                      else first_occurrences (entity_names ''Chemical'' (abstract_entities item)))
       \<and> dis st' = (if dataset_type item = ''test'' then []
                    else first_occurrences (entity_names ''Disease'' (abstract_entities item)))
       \<and> sorted_wrt (\<lambda>a b. first_index (entity_names ''Chemical'' (abstract_entities item)) a
                          < first_index (entity_names ''Chemical'' (abstract_entities item)) b)
           (chems st')
       \<and> sorted_wrt (\<lambda>a b. first_index (entity_names ''Disease'' (abstract_entities item)) a
                          < first_index (entity_names ''Disease'' (abstract_entities item)) b)
           (dis st')"
  using loop_body_lists[OF assms]
  by (simp add: distinct_first_occurrences sorted_first_occurrences)

theorem per_item_lists_first_occurrences_witness:
  "loop_body \<lparr>the_list = [()], chems = [''stale''], dis = []\<rparr> sample_item
     = Inr \<lparr>the_list = [()],
            chems = [''clonidine'', ''nalozone'', ''alpha-methyldopa'', ''naloxone'', ''Naloxone''],
            dis = [''hypertensive'', ''hypotensive'']\<rparr>
   \<and> entity_names ''Chemical'' (abstract_entities sample_item)
     = [''clonidine'', ''nalozone'', ''alpha-methyldopa'', ''naloxone'', ''Naloxone'', ''clonidine'']
   \<and> entity_names ''Disease'' (abstract_entities sample_item)
     = [''hypertensive'', ''hypotensive'', ''hypertensive'']
   \<and> distinct [''clonidine'', ''nalozone'', ''alpha-methyldopa'', ''naloxone'', ''Naloxone'']
   \<and> distinct [''hypertensive'', ''hypotensive'']
   \<and> [''clonidine'', ''nalozone'', ''alpha-methyldopa'', ''naloxone'', ''Naloxone'']
     = first_occurrences (entity_names ''Chemical'' (abstract_entities sample_item))
   \<and> [''hypertensive'', ''hypotensive'']
     = first_occurrences (entity_names ''Disease'' (abstract_entities sample_item))"
proof -
  have run: "loop_body \<lparr>the_list = [()], chems = [''stale''], dis = []\<rparr> sample_item
     = Inr \<lparr>the_list = [()],
            chems = [''clonidine'', ''nalozone'', ''alpha-methyldopa'', ''naloxone'', ''Naloxone''],
            dis = [''hypertensive'', ''hypotensive'']\<rparr>"
    by code_simp
  have nc: "entity_names ''Chemical'' (abstract_entities sample_item)
     = [''clonidine'', ''nalozone'', ''alpha-methyldopa'', ''naloxone'', ''Naloxone'', ''clonidine'']"
    by code_simp
  have nd: "entity_names ''Disease'' (abstract_entities sample_item)
     = [''hypertensive'', ''hypotensive'', ''hypertensive'']"
    by code_simp
  have nt: "dataset_type sample_item \<noteq> ''test''"
    by (simp add: sample_item_def)
  from per_item_lists_first_occurrences[OF run] run nc nd nt show ?thesis
    by simp
qed

section \<open>The outer loop and the writer\<close>

text \<open>
  The loop never extends \<^verbatim>\<open>the_list\<close>: the list is empty when the loop ends, and the
  writer produces an empty file.
\<close>

lemma preprocess_loop_the_list:
  "preprocess_loop st data = Inr st' \<Longrightarrow> the_list st' = the_list st"
proof (induction data arbitrary: st)
  case Nil
  then show ?case by simp
next
  case (Cons item data)
  from Cons.prems obtain st1
    where b: "loop_body st item = Inr st1" and r: "preprocess_loop st1 data = Inr st'"
    by (auto split: sum.splits)
  from Cons.IH[OF r] loop_body_lists[OF b] show ?case by simp
qed

lemma preprocess_the_list_empty:
  assumes "preprocess data = Inr st'"
  shows "the_list st' = [] \<and> write_jsonl dumps (the_list st') = []"
  using preprocess_loop_the_list[OF assms[unfolded preprocess_def]]
  by (simp add: write_jsonl_def)

text \<open>The writer puts each element of the list on a line of its own, in the list's order.\<close>

lemma write_jsonl_Cons:
  "write_jsonl dumps (x # xs) = dumps x @ CHR 0x0A # write_jsonl dumps xs"
  by (simp add: write_jsonl_def)


end
